theory Spec2Isabelle
  imports Main "HOL-Library.Word"
begin

section \<open>The remote API as seen by aws-wp.go\<close>

text \<open>
  The program is a sequence of calls to an EC2 client, interleaved with prints, log
  lines and sleeps. The embedding threads the list of effects performed so far (the
  trace) through every function, and takes the client's answers as a script: one answer
  for each call that is made at most once, and one answer per query number for
  \<open>DescribeInstances\<close>, which the poll loop repeats.
\<close>

subsection \<open>Errors\<close>

text \<open>
  A Go \<open>error\<close> either carries a \<open>smithy.APIError\<close> in its chain (then
  \<open>errors.As\<close> succeeds and \<open>ErrorCode()\<close> is readable) or it does not (a transport
  failure, a credentials failure). Both keep the text that \<open>Error()\<close> returns.
\<close>

datatype error =
    APIError string string
  | OtherError string

fun errors_As_APIError :: "error \<Rightarrow> string option" where
  "errors_As_APIError (APIError code msg) = Some code"
| "errors_As_APIError (OtherError msg) = None"

fun Error :: "error \<Rightarrow> string" where
  "Error (APIError code msg) = msg"
| "Error (OtherError msg) = msg"

datatype panic =
    NilDereference
  | IndexOutOfRange
  | PanicMessage string

subsection \<open>The fields of the SDK types that the program reads\<close>

record securityGroup =
  sg_GroupId :: "string option"

record createSecurityGroupOutput =
  GroupId :: "string option"

record instanceState =
  Code :: "32 word option"

record ec2Instance =
  InstanceId :: "string option"
  State :: "instanceState option"
  PublicDnsName :: "string option"

record reservation =
  Instances :: "ec2Instance list"

record ipPermission =
  FromPort :: "32 word"
  ToPort :: "32 word"
  IpProtocol :: string
  IpRanges :: "string list"
  Ipv6Ranges :: "string list"

record runInstancesInput =
  ImageId :: string
  InstanceType :: string
  MinCount :: "32 word"
  MaxCount :: "32 word"
  SecurityGroupIds :: "string list"

subsection \<open>Effects\<close>

datatype event =
    DescribeSecurityGroups "string list"
  | CreateSecurityGroup string string
  | AuthorizeSecurityGroupIngress "string option" "ipPermission list"
  | RunInstances runInstancesInput
  | CreateTags "string list" "(string \<times> string) list"
  | DescribeInstances "string list"
  | Sleep nat
  | Println string
  | Log_Printf string
  | Log_Fatal string
  | Exec_Start string "string list"

type_synonym trace = "event list"

fun is_api_call :: "event \<Rightarrow> bool" where
  "is_api_call (DescribeSecurityGroups names) = True"
| "is_api_call (CreateSecurityGroup name descr) = True"
| "is_api_call (AuthorizeSecurityGroupIngress gid perms) = True"
| "is_api_call (RunInstances inp) = True"
| "is_api_call (CreateTags res tags) = True"
| "is_api_call (DescribeInstances ids) = True"
| "is_api_call e = False"

fun is_create :: "event \<Rightarrow> bool" where
  "is_create (CreateSecurityGroup name descr) = True"
| "is_create e = False"

fun is_authorize :: "event \<Rightarrow> bool" where
  "is_authorize (AuthorizeSecurityGroupIngress gid perms) = True"
| "is_authorize e = False"

fun is_query :: "event \<Rightarrow> bool" where
  "is_query (DescribeInstances ids) = True"
| "is_query e = False"

fun is_sleep :: "event \<Rightarrow> bool" where
  "is_sleep (Sleep secs) = True"
| "is_sleep e = False"

subsection \<open>The scripted client\<close>

record client =
  on_DescribeSecurityGroups :: "error + securityGroup list"
  on_CreateSecurityGroup :: "error + createSecurityGroupOutput"
  on_AuthorizeSecurityGroupIngress :: "error option"
  on_RunInstances :: "error + reservation"
  on_CreateTags :: "error option"
  on_DescribeInstances :: "nat \<Rightarrow> error + reservation list"

section \<open>getSecurityGroup\<close>

definition groupName :: string where
  "groupName = ''wordpress-sg''"

definition permissions :: "ipPermission list" where
  "permissions =
     [\<lparr>FromPort = 80, ToPort = 80, IpProtocol = ''tcp'',
       IpRanges = [''0.0.0.0/0''], Ipv6Ranges = [''::/0'']\<rparr>]"

text \<open>
  Lines 99 to 137: create the group, authorize the ingress rule, return the new
  identifier. The two results of \<open>AuthorizeSecurityGroupIngress\<close> are discarded by the
  source, so the scripted answer to it is never read.
\<close>

definition createSecurityGroup :: "client \<Rightarrow> trace \<Rightarrow> (panic + string) \<times> trace" where
  "createSecurityGroup c t =
     (let t1 = t @ [CreateSecurityGroup groupName ''Security group for wordpress'']
      in case on_CreateSecurityGroup c of
           Inl err \<Rightarrow>
             (Inr '''',
              t1 @ [Println ''Got an error creating an security group:'', Println (Error err)])
         | Inr securityGroup \<Rightarrow>
             (let t2 = t1 @ [AuthorizeSecurityGroupIngress (GroupId securityGroup) permissions]
              in case GroupId securityGroup of
                   None \<Rightarrow> (Inl NilDereference, t2)
                 | Some gid \<Rightarrow> (Inr gid, t2)))"

definition getSecurityGroup :: "client \<Rightarrow> trace \<Rightarrow> (panic + string) \<times> trace" where
  "getSecurityGroup c t =
     (let t1 = t @ [DescribeSecurityGroups [groupName]]
      in case on_DescribeSecurityGroups c of
           Inr (g # gs) \<Rightarrow>
             (case sg_GroupId g of
                None \<Rightarrow> (Inl NilDereference, t1)
              | Some gid \<Rightarrow> (Inr gid, t1))
         | Inr [] \<Rightarrow> createSecurityGroup c t1
         | Inl err \<Rightarrow>
             (case errors_As_APIError err of
                Some code \<Rightarrow>
                  if code \<noteq> ''InvalidGroup.NotFound''
                  then (Inr '''',
                        t1 @ [Println ''Got an error retrieving information about security griop:'',
                              Println groupName, Println (Error err)])
                  else createSecurityGroup c t1
              | None \<Rightarrow> createSecurityGroup c t1))"

section \<open>setTagName and createInstance\<close>

definition setTagName :: "client \<Rightarrow> string \<Rightarrow> trace \<Rightarrow> trace" where
  "setTagName c instanceId t =
     (let t1 = t @ [CreateTags [instanceId] [(''Name'', ''WordPress'')]]
      in case on_CreateTags c of
           Some err \<Rightarrow>
             t1 @ [Println ''Got an error tagging the instance:'', Println (Error err)]
         | None \<Rightarrow> t1)"

definition createInstance :: "client \<Rightarrow> string \<Rightarrow> trace \<Rightarrow> (panic + string) \<times> trace" where
  "createInstance c imageId t =
     (case getSecurityGroup c t of
        (Inl p, t1) \<Rightarrow> (Inl p, t1)
      | (Inr securityGroupId, t1) \<Rightarrow>
          (let instancesInput =
                 \<lparr>ImageId = imageId, InstanceType = ''t2.micro'', MinCount = 1, MaxCount = 1,
                  SecurityGroupIds = [securityGroupId]\<rparr>;
               t2 = t1 @ [RunInstances instancesInput]
           in case on_RunInstances c of
                Inl err \<Rightarrow>
                  (Inr '''',
                   t2 @ [Println ''Got an error creating an instance:'', Println (Error err)])
              | Inr result \<Rightarrow>
                  (case Instances result of
                     [] \<Rightarrow> (Inl IndexOutOfRange, t2)
                   | i # rest \<Rightarrow>
                       (case InstanceId i of
                          None \<Rightarrow> (Inl NilDereference, t2)
                        | Some instanceId \<Rightarrow> (Inr instanceId, setTagName c instanceId t2)))))"

section \<open>waitRunning\<close>

text \<open>
  The body of the two nested \<open>for ... range\<close> loops over one answer. \<open>None\<close> means that
  the loops ran to their end, so that the enclosing loop sleeps and asks again; \<open>Some\<close>
  is a return (or a panic) from inside them.
\<close>

fun scanInstances :: "ec2Instance list \<Rightarrow> trace \<Rightarrow> (panic + string) option \<times> trace" where
  "scanInstances [] t = (None, t)"
| "scanInstances (i # rest) t =
     (case State i of
        None \<Rightarrow> (Some (Inl NilDereference), t)
      | Some st \<Rightarrow>
          (case Code st of
             None \<Rightarrow> (Some (Inl NilDereference), t)
           | Some code \<Rightarrow>
               if code = 16
               then (case PublicDnsName i of
                       None \<Rightarrow> (Some (Inl NilDereference), t @ [Sleep 7])
                     | Some dns \<Rightarrow> (Some (Inr (''http://'' @ dns)), t @ [Sleep 7]))
               else if code \<noteq> 0
               then (Some (Inr ''''), t @ [Println ''Got an error creating an instance''])
               else scanInstances rest (t @ [Log_Printf ''Still pending...''])))"

fun scanReservations :: "reservation list \<Rightarrow> trace \<Rightarrow> (panic + string) option \<times> trace" where
  "scanReservations [] t = (None, t)"
| "scanReservations (r # rest) t =
     (case scanInstances (Instances r) t of
        (Some res, t1) \<Rightarrow> (Some res, t1)
      | (None, t1) \<Rightarrow> scanReservations rest t1)"

text \<open>
  The outer \<open>for { ... }\<close> has no bound. \<open>n\<close> counts the queries made so far, so the
  answer to the next one is \<open>on_DescribeInstances c n\<close>. A run that never leaves the loop
  has the value \<open>None\<close>.
\<close>

partial_function (option) waitRunning_loop ::
  "client \<Rightarrow> string list \<Rightarrow> nat \<Rightarrow> trace \<Rightarrow> ((panic + string) \<times> trace) option" where
  "waitRunning_loop c ids n t =
     (let t1 = t @ [DescribeInstances ids]
      in case on_DescribeInstances c n of
           Inl err \<Rightarrow>
             Some (Inr '''',
                   t1 @ [Println ''Got an error retrieving information about your Amazon EC2 instances:'',
                         Println (Error err)])
         | Inr result \<Rightarrow>
             (case scanReservations result t1 of
                (Some res, t2) \<Rightarrow> Some (res, t2)
              | (None, t2) \<Rightarrow> waitRunning_loop c ids (Suc n) (t2 @ [Sleep 3])))"

declare waitRunning_loop.simps [code]

definition waitRunning :: "client \<Rightarrow> string \<Rightarrow> trace \<Rightarrow> ((panic + string) \<times> trace) option" where
  "waitRunning c instanceId t = waitRunning_loop c [instanceId] 0 t"

section \<open>openBrowser and main\<close>

record host =
  flag_ami :: string
  LoadDefaultConfig :: "error option"
  GOOS :: string
  on_Start :: "error option"
  ec2 :: client

datatype exit = Returned | Panicked panic | Exited nat

text \<open>\<open>log.Fatal\<close> prints and then leaves the process with status 1.\<close>

definition openBrowser :: "host \<Rightarrow> string \<Rightarrow> trace \<Rightarrow> exit \<times> trace" where
  "openBrowser h url t =
     (let (err, t1) =
            (if GOOS h = ''linux'' then (on_Start h, t @ [Exec_Start ''xdg-open'' [url]])
             else if GOOS h = ''windows''
             then (on_Start h, t @ [Exec_Start ''rundll32'' [''url.dll,FileProtocolHandler'', url]])
             else if GOOS h = ''darwin'' then (on_Start h, t @ [Exec_Start ''open'' [url]])
             else (Some (OtherError ''unsupported platform''), t))
      in case err of
           None \<Rightarrow> (Returned, t1)
         | Some e \<Rightarrow>
             (Exited 1,
              t1 @ [Println ''Got an error open browser:'', Println (Error e),
                    Log_Fatal (Error e)]))"

text \<open>
  \<open>defer duration(time.Now())\<close> runs when \<open>main\<close> returns and when it panics, and does
  not run when \<open>log.Fatal\<close> leaves the process.
\<close>

definition duration :: "trace \<Rightarrow> trace" where
  "duration t = t @ [Log_Printf ''Start-up time: %v\<newline>'']"

definition main :: "host \<Rightarrow> (exit \<times> trace) option" where
  "main h =
     (let imageId = flag_ami h
      in if imageId = '''' then Some (Returned, duration [Println ''You must supply an AMI''])
         else
           (case LoadDefaultConfig h of
              Some err \<Rightarrow>
                Some (Panicked (PanicMessage (''Configuration error, '' @ Error err)), duration [])
            | None \<Rightarrow>
                (case createInstance (ec2 h) imageId [] of
                   (Inl p, t1) \<Rightarrow> Some (Panicked p, duration t1)
                 | (Inr instanceId, t1) \<Rightarrow>
                     (case waitRunning (ec2 h) instanceId t1 of
                        None \<Rightarrow> None
                      | Some (Inl p, t2) \<Rightarrow> Some (Panicked p, duration t2)
                      | Some (Inr publicDnsName, t2) \<Rightarrow>
                          if publicDnsName \<noteq> ''''
                          then (case openBrowser h publicDnsName t2 of
                                  (Returned, t3) \<Rightarrow> Some (Returned, duration t3)
                                | (ex, t3) \<Rightarrow> Some (ex, t3))
                          else Some (Returned, duration t2)))))"

section \<open>Vocabulary of the statements\<close>

text \<open>
  An instance is pending when its state code is readable and equal to 0. The poll loop
  walks the instances of all reservations of an answer in order; an answer is pending
  when it is a success in which every instance is pending (an answer without instances
  is one of them). \<open>firstNonPending\<close> is the instance that decides an answer that is not
  pending, and \<open>stillPending\<close> the log lines written before that instance is reached.
\<close>

definition pendingInstance :: "ec2Instance \<Rightarrow> bool" where
  "pendingInstance i = (case State i of None \<Rightarrow> False | Some st \<Rightarrow> Code st = Some 0)"

definition allInstances :: "reservation list \<Rightarrow> ec2Instance list" where
  "allInstances rs = concat (map Instances rs)"

definition pendingResponse :: "error + reservation list \<Rightarrow> bool" where
  "pendingResponse r =
     (case r of Inl err \<Rightarrow> False | Inr rs \<Rightarrow> list_all pendingInstance (allInstances rs))"

definition firstNonPending :: "reservation list \<Rightarrow> ec2Instance option" where
  "firstNonPending rs = find (\<lambda>i. \<not> pendingInstance i) (allInstances rs)"

definition stillPending :: "reservation list \<Rightarrow> trace" where
  "stillPending rs =
     replicate (length (takeWhile pendingInstance (allInstances rs))) (Log_Printf ''Still pending...'')"

section \<open>Example scripts\<close>

definition sg_client ::
  "(error + securityGroup list) \<Rightarrow> (error + createSecurityGroupOutput) \<Rightarrow> error option \<Rightarrow> client" where
  "sg_client d cr au =
     \<lparr>on_DescribeSecurityGroups = d, on_CreateSecurityGroup = cr,
      on_AuthorizeSecurityGroupIngress = au,
      on_RunInstances = Inl (OtherError ''unused''), on_CreateTags = None,
      on_DescribeInstances = (\<lambda>n. Inl (OtherError ''unused''))\<rparr>"

definition client_lookup_unreachable :: client where
  "client_lookup_unreachable =
     sg_client (Inl (OtherError ''request send failed''))
       (Inr \<lparr>GroupId = Some ''sg-1''\<rparr>) None"

definition client_authorize_fails :: client where
  "client_authorize_fails =
     sg_client (Inl (APIError ''InvalidGroup.NotFound'' ''no such group''))
       (Inr \<lparr>GroupId = Some ''sg-1''\<rparr>)
       (Some (APIError ''UnauthorizedOperation'' ''denied''))"

definition launch_client :: client where
  "launch_client =
     \<lparr>on_DescribeSecurityGroups = Inr [\<lparr>sg_GroupId = Some ''sg-0''\<rparr>],
      on_CreateSecurityGroup = Inl (OtherError ''unused''),
      on_AuthorizeSecurityGroupIngress = None,
      on_RunInstances =
        Inr \<lparr>Instances = [\<lparr>InstanceId = Some ''i-abc'', State = None, PublicDnsName = None\<rparr>]\<rparr>,
      on_CreateTags = Some (APIError ''RequestLimitExceeded'' ''slow down''),
      on_DescribeInstances = (\<lambda>n. Inl (OtherError ''unused''))\<rparr>"

definition poll_client :: "(nat \<Rightarrow> error + reservation list) \<Rightarrow> client" where
  "poll_client script =
     \<lparr>on_DescribeSecurityGroups = Inl (OtherError ''unused''),
      on_CreateSecurityGroup = Inl (OtherError ''unused''),
      on_AuthorizeSecurityGroupIngress = None,
      on_RunInstances = Inl (OtherError ''unused''), on_CreateTags = None,
      on_DescribeInstances = script\<rparr>"

definition status :: "32 word \<Rightarrow> string \<Rightarrow> ec2Instance" where
  "status code dns =
     \<lparr>InstanceId = Some ''i-abc'', State = Some \<lparr>Code = Some code\<rparr>, PublicDnsName = Some dns\<rparr>"

definition pending_pending_running :: "nat \<Rightarrow> error + reservation list" where
  "pending_pending_running n =
     (if n < 2 then Inr [\<lparr>Instances = [status 0 '''']\<rparr>]
      else Inr [\<lparr>Instances = [status 16 ''ec2-1-2-3-4.compute.amazonaws.com'']\<rparr>])"

definition pending_terminated :: "nat \<Rightarrow> error + reservation list" where
  "pending_terminated n =
     (if n < 1 then Inr [\<lparr>Instances = [status 0 '''']\<rparr>]
      else Inr [\<lparr>Instances = [status 48 '''']\<rparr>])"

definition pending_query_error :: "nat \<Rightarrow> error + reservation list" where
  "pending_query_error n =
     (if n < 1 then Inr [\<lparr>Instances = [status 0 '''']\<rparr>]
      else Inl (OtherError ''request send failed''))"


definition scenario_client :: client where
  "scenario_client =
     \<lparr>on_DescribeSecurityGroups = Inr [\<lparr>sg_GroupId = Some ''sg-0''\<rparr>],
      on_CreateSecurityGroup = Inl (OtherError ''unused''),
      on_AuthorizeSecurityGroupIngress = None,
      on_RunInstances = Inr \<lparr>Instances = [status 0 '''']\<rparr>,
      on_CreateTags = None,
      on_DescribeInstances =
        (\<lambda>n. if n < 1 then Inr [\<lparr>Instances = [status 0 '''']\<rparr>]
             else Inr [\<lparr>Instances = [status 16 ''ec2-1-2-3-4.compute.amazonaws.com'']\<rparr>])\<rparr>"

section \<open>Properties of getSecurityGroup\<close>

lemma sg_client_simps:
  "on_DescribeSecurityGroups (sg_client d cr au) = d"
  "on_CreateSecurityGroup (sg_client d cr au) = cr"
  "on_AuthorizeSecurityGroupIngress (sg_client d cr au) = au"
  by (simp_all add: sg_client_def)

lemma createSecurityGroup_authorize_unread:
  "createSecurityGroup (c\<lparr>on_AuthorizeSecurityGroupIngress := a\<rparr>) t = createSecurityGroup c t"
  by (simp add: createSecurityGroup_def)

text \<open>
  Whatever \<open>AuthorizeSecurityGroupIngress\<close> answers, \<open>getSecurityGroup\<close> does the same:
  the source drops both results of that call.
\<close>

lemma getSecurityGroup_authorize_unread:
  "getSecurityGroup (c\<lparr>on_AuthorizeSecurityGroupIngress := a\<rparr>) t = getSecurityGroup c t"
  by (simp add: getSecurityGroup_def createSecurityGroup_authorize_unread Let_def
      split: sum.splits list.splits option.splits)

text \<open>
  A lookup that succeeds without any group is followed by the creation as well.
\<close>

lemma getSecurityGroup_lookup_empty:
  "on_DescribeSecurityGroups c = Inr [] \<Longrightarrow>
   getSecurityGroup c t = createSecurityGroup c (t @ [DescribeSecurityGroups [groupName]])"
  by (simp add: getSecurityGroup_def)

text \<open>
  The lookup errors that the source does tell apart. When the lookup fails with an API
  error whose code is \<open>InvalidGroup.NotFound\<close>, \<open>getSecurityGroup\<close> calls \<open>CreateSecurityGroup\<close> exactly once; if
  that call succeeds, \<open>AuthorizeSecurityGroupIngress\<close> follows it exactly once and nothing
  else happens, and if it fails, no authorize call is made, the failure is printed and the
  empty string is returned. When the lookup fails with an API error of any other code,
  nothing is created, the failure is printed and the empty string is returned.
\<close>

lemma getSecurityGroup_lookup_api_error:
  assumes "on_DescribeSecurityGroups c = Inl err" and "errors_As_APIError err = Some code"
  shows "(code = ''InvalidGroup.NotFound'' \<longrightarrow>
            length (filter is_create (snd (getSecurityGroup c t))) = length (filter is_create t) + 1 \<and>
            (case on_CreateSecurityGroup c of
               Inr out \<Rightarrow>
                 snd (getSecurityGroup c t) =
                   t @ [DescribeSecurityGroups [groupName],
                        CreateSecurityGroup groupName ''Security group for wordpress'',
                        AuthorizeSecurityGroupIngress (GroupId out) permissions] \<and>
                 (\<forall>gid. GroupId out = Some gid \<longrightarrow> fst (getSecurityGroup c t) = Inr gid)
             | Inl e \<Rightarrow>
                 getSecurityGroup c t =
                   (Inr '''',
                    t @ [DescribeSecurityGroups [groupName],
                         CreateSecurityGroup groupName ''Security group for wordpress'',
                         Println ''Got an error creating an security group:'', Println (Error e)]))) \<and>
         (code \<noteq> ''InvalidGroup.NotFound'' \<longrightarrow>
            getSecurityGroup c t =
              (Inr '''',
               t @ [DescribeSecurityGroups [groupName],
                    Println ''Got an error retrieving information about security griop:'',
                    Println groupName, Println (Error err)]))"
  using assms
  by (auto simp add: getSecurityGroup_def createSecurityGroup_def Let_def
      split: sum.splits option.splits)

lemma getSecurityGroup_lookup_api_error_example:
  "snd (getSecurityGroup
     (sg_client (Inl (APIError ''InvalidGroup.NotFound'' ''no such group''))
        (Inr \<lparr>GroupId = Some ''sg-1''\<rparr>) None) [])
     = [DescribeSecurityGroups [''wordpress-sg''],
         CreateSecurityGroup ''wordpress-sg'' ''Security group for wordpress'',
         AuthorizeSecurityGroupIngress (Some ''sg-1'') permissions] \<and>
   getSecurityGroup
     (sg_client (Inl (APIError ''UnauthorizedOperation'' ''denied''))
        (Inr \<lparr>GroupId = Some ''sg-1''\<rparr>) None) []
     = (Inr '''',
        [DescribeSecurityGroups [''wordpress-sg''],
         Println ''Got an error retrieving information about security griop:'',
         Println ''wordpress-sg'', Println ''denied''])"
proof -
  let ?c1 = "sg_client (Inl (APIError ''InvalidGroup.NotFound'' ''no such group''))
               (Inr \<lparr>GroupId = Some ''sg-1''\<rparr>) None"
  let ?c2 = "sg_client (Inl (APIError ''UnauthorizedOperation'' ''denied''))
               (Inr \<lparr>GroupId = Some ''sg-1''\<rparr>) None"
  have h1: "on_DescribeSecurityGroups ?c1 = Inl (APIError ''InvalidGroup.NotFound'' ''no such group'')"
    by (simp add: sg_client_simps)
  have k1: "errors_As_APIError (APIError ''InvalidGroup.NotFound'' ''no such group'')
              = Some ''InvalidGroup.NotFound''"
    by simp
  have h2: "on_DescribeSecurityGroups ?c2 = Inl (APIError ''UnauthorizedOperation'' ''denied'')"
    by (simp add: sg_client_simps)
  have k2: "errors_As_APIError (APIError ''UnauthorizedOperation'' ''denied'')
              = Some ''UnauthorizedOperation''"
    by simp
  have a: "snd (getSecurityGroup ?c1 []) =
             [DescribeSecurityGroups [''wordpress-sg''],
              CreateSecurityGroup ''wordpress-sg'' ''Security group for wordpress'',
              AuthorizeSecurityGroupIngress (Some ''sg-1'') permissions]"
    using getSecurityGroup_lookup_api_error [OF h1 k1, of "[]"]
    by (simp add: sg_client_simps groupName_def)
  have b: "getSecurityGroup ?c2 [] =
             (Inr '''',
              [DescribeSecurityGroups [''wordpress-sg''],
               Println ''Got an error retrieving information about security griop:'',
               Println ''wordpress-sg'', Println ''denied''])"
    using getSecurityGroup_lookup_api_error [OF h2 k2, of "[]"]
    by (simp add: groupName_def)
  show ?thesis using a b by (rule conjI)
qed

text \<open>
  A lookup error in which \<open>errors.As\<close> finds no API error passes both tests of lines
  87 to 97 and reaches the creation, with nothing printed about the lookup.
\<close>

lemma getSecurityGroup_lookup_other_error:
  "on_DescribeSecurityGroups c = Inl err \<Longrightarrow> errors_As_APIError err = None \<Longrightarrow>
   getSecurityGroup c t = createSecurityGroup c (t @ [DescribeSecurityGroups [groupName]])"
  by (simp add: getSecurityGroup_def)

text \<open>
  C1. A lookup that fails with any error other than not found should create nothing and
  give the empty string. At a lookup that fails with an error carrying no API error code
  (the request could not be sent) and a creation that succeeds with \<open>sg-1\<close>,
  \<open>getSecurityGroup\<close> calls \<open>CreateSecurityGroup\<close> and
  \<open>AuthorizeSecurityGroupIngress\<close>, prints nothing and returns \<open>sg-1\<close>.
\<close>

theorem getSecurityGroup_lookup_unreachable_creates:
  "getSecurityGroup client_lookup_unreachable [] =
     (Inr ''sg-1'',
      [DescribeSecurityGroups [''wordpress-sg''],
       CreateSecurityGroup ''wordpress-sg'' ''Security group for wordpress'',
       AuthorizeSecurityGroupIngress (Some ''sg-1'') permissions])"
  by (simp add: getSecurityGroup_def createSecurityGroup_def client_lookup_unreachable_def
      sg_client_simps groupName_def)

text \<open>
  C3. The claim asks for the empty string when \<open>AuthorizeSecurityGroupIngress\<close> fails.
  At a lookup that reports \<open>InvalidGroup.NotFound\<close>, a creation that succeeds with
  \<open>sg-1\<close> and an authorization that fails, \<open>getSecurityGroup\<close> returns \<open>sg-1\<close> and prints
  nothing.
\<close>

theorem getSecurityGroup_authorize_error_ignored:
  "getSecurityGroup client_authorize_fails [] =
     (Inr ''sg-1'',
      [DescribeSecurityGroups [''wordpress-sg''],
       CreateSecurityGroup ''wordpress-sg'' ''Security group for wordpress'',
       AuthorizeSecurityGroupIngress (Some ''sg-1'') permissions])"
  by (simp add: getSecurityGroup_def createSecurityGroup_def client_authorize_fails_def
      sg_client_simps groupName_def)

text \<open>A failing creation is printed and gives the empty string, after any lookup that leads to it.\<close>

lemma createSecurityGroup_error:
  "on_CreateSecurityGroup c = Inl err \<Longrightarrow>
   createSecurityGroup c t =
     (Inr '''', t @ [CreateSecurityGroup groupName ''Security group for wordpress'',
                     Println ''Got an error creating an security group:'', Println (Error err)])"
  by (simp add: createSecurityGroup_def Let_def)

text \<open>
  C5. When the lookup succeeds with at least one group, \<open>getSecurityGroup\<close> makes the
  lookup and no other call, so it creates nothing; it returns the identifier of the
  first group found; and a second run after the first still has created nothing.
\<close>

theorem getSecurityGroup_existing_no_create:
  assumes "on_DescribeSecurityGroups c = Inr (g # gs)"
  shows "snd (getSecurityGroup c t) = t @ [DescribeSecurityGroups [groupName]] \<and>
         filter is_create (snd (getSecurityGroup c t)) = filter is_create t \<and>
         (\<forall>gid. sg_GroupId g = Some gid \<longrightarrow> fst (getSecurityGroup c t) = Inr gid) \<and>
         filter is_create (snd (getSecurityGroup c (snd (getSecurityGroup c t)))) = filter is_create t"
  using assms by (simp add: getSecurityGroup_def Let_def split: option.splits)

theorem getSecurityGroup_existing_no_create_witness:
  "getSecurityGroup (sg_client (Inr [\<lparr>sg_GroupId = Some ''sg-0''\<rparr>]) (Inr \<lparr>GroupId = Some ''sg-1''\<rparr>) None) []
     = (Inr ''sg-0'', [DescribeSecurityGroups [''wordpress-sg'']]) \<and>
   filter is_create
     (snd (getSecurityGroup (sg_client (Inr [\<lparr>sg_GroupId = Some ''sg-0''\<rparr>]) (Inr \<lparr>GroupId = Some ''sg-1''\<rparr>) None)
        (snd (getSecurityGroup
               (sg_client (Inr [\<lparr>sg_GroupId = Some ''sg-0''\<rparr>]) (Inr \<lparr>GroupId = Some ''sg-1''\<rparr>) None) []))))
     = []"
proof -
  let ?c = "sg_client (Inr [\<lparr>sg_GroupId = Some ''sg-0''\<rparr>]) (Inr \<lparr>GroupId = Some ''sg-1''\<rparr>) None"
  have h: "on_DescribeSecurityGroups ?c = Inr (\<lparr>sg_GroupId = Some ''sg-0''\<rparr> # [])"
    by (simp add: sg_client_simps)
  note r = getSecurityGroup_existing_no_create [OF h, of "[]"]
  have a: "getSecurityGroup ?c [] = (Inr ''sg-0'', [DescribeSecurityGroups [''wordpress-sg'']])"
    using r by (simp add: prod_eq_iff groupName_def)
  have b: "filter is_create (snd (getSecurityGroup ?c (snd (getSecurityGroup ?c [])))) = []"
    using r [THEN conjunct2, THEN conjunct2, THEN conjunct2] by simp
  show ?thesis using a b by (rule conjI)
qed

section \<open>Properties of createInstance and main\<close>

text \<open>
  C8. When \<open>RunInstances\<close> succeeds and \<open>CreateTags\<close> fails, \<open>createInstance\<close> prints the
  tagging failure and still returns the identifier of the first instance of the answer.
\<close>

theorem createInstance_tag_failure_nonfatal:
  assumes "getSecurityGroup c t = (Inr securityGroupId, t1)"
    and "on_RunInstances c = Inr result"
    and "Instances result = i # rest"
    and "InstanceId i = Some instanceId"
    and "on_CreateTags c = Some err"
  shows "createInstance c imageId t =
           (Inr instanceId,
            t1 @ [RunInstances \<lparr>ImageId = imageId, InstanceType = ''t2.micro'', MinCount = 1,
                                MaxCount = 1, SecurityGroupIds = [securityGroupId]\<rparr>,
                  CreateTags [instanceId] [(''Name'', ''WordPress'')],
                  Println ''Got an error tagging the instance:'', Println (Error err)])"
  using assms by (simp add: createInstance_def setTagName_def)

theorem createInstance_tag_failure_nonfatal_witness:
  "createInstance launch_client ''ami-123'' [] =
     (Inr ''i-abc'',
      [DescribeSecurityGroups [''wordpress-sg''],
       RunInstances \<lparr>ImageId = ''ami-123'', InstanceType = ''t2.micro'', MinCount = 1,
                     MaxCount = 1, SecurityGroupIds = [''sg-0'']\<rparr>,
       CreateTags [''i-abc''] [(''Name'', ''WordPress'')],
       Println ''Got an error tagging the instance:'', Println ''slow down''])"
proof -
  have sg: "getSecurityGroup launch_client [] =
              (Inr ''sg-0'', [DescribeSecurityGroups [''wordpress-sg'']])"
    by (simp add: getSecurityGroup_def launch_client_def groupName_def)
  have run: "on_RunInstances launch_client =
               Inr \<lparr>Instances = [\<lparr>InstanceId = Some ''i-abc'', State = None, PublicDnsName = None\<rparr>]\<rparr>"
    by (simp add: launch_client_def)
  have ins: "Instances \<lparr>Instances = [\<lparr>InstanceId = Some ''i-abc'', State = None, PublicDnsName = None\<rparr>]\<rparr>
               = \<lparr>InstanceId = Some ''i-abc'', State = None, PublicDnsName = None\<rparr> # []"
    by simp
  have iid: "InstanceId \<lparr>InstanceId = Some ''i-abc'', State = None, PublicDnsName = None\<rparr>
               = Some ''i-abc''"
    by simp
  have tag: "on_CreateTags launch_client = Some (APIError ''RequestLimitExceeded'' ''slow down'')"
    by (simp add: launch_client_def)
  show ?thesis
    using createInstance_tag_failure_nonfatal [OF sg run ins iid tag, of "''ami-123''"] by simp
qed

text \<open>
  C4. With an empty image identifier, \<open>main\<close> prints that an AMI must be supplied and
  returns; apart from the deferred timing line nothing else happens, so no call to the
  remote API is made.
\<close>

theorem main_empty_image_no_api_call:
  assumes "flag_ami h = ''''"
  shows "main h = Some (Returned, [Println ''You must supply an AMI'',
                                   Log_Printf ''Start-up time: %v\<newline>'']) \<and>
         (\<forall>ex t. main h = Some (ex, t) \<longrightarrow> filter is_api_call t = [])"
  using assms by (simp add: main_def duration_def)

theorem main_empty_image_no_api_call_witness:
  "main \<lparr>flag_ami = '''', LoadDefaultConfig = None, GOOS = ''linux'', on_Start = None,
         ec2 = launch_client\<rparr>
     = Some (Returned, [Println ''You must supply an AMI'', Log_Printf ''Start-up time: %v\<newline>''])"
proof -
  have h: "flag_ami \<lparr>flag_ami = '''', LoadDefaultConfig = None, GOOS = ''linux'', on_Start = None,
                     ec2 = launch_client\<rparr> = ''''"
    by simp
  show ?thesis using main_empty_image_no_api_call [OF h] by (rule conjunct1)
qed

text \<open>
  The scenario of the specification, end to end: the group exists, the instance
  \<open>i-abc\<close> is created and tagged, is pending once and then running, and the browser is
  opened on its address.
\<close>

lemma main_end_to_end:
  "main \<lparr>flag_ami = ''ami-123'', LoadDefaultConfig = None, GOOS = ''linux'', on_Start = None,
         ec2 = scenario_client\<rparr> =
     Some (Returned,
       [DescribeSecurityGroups [''wordpress-sg''],
        RunInstances \<lparr>ImageId = ''ami-123'', InstanceType = ''t2.micro'', MinCount = 1,
                      MaxCount = 1, SecurityGroupIds = [''sg-0'']\<rparr>,
        CreateTags [''i-abc''] [(''Name'', ''WordPress'')],
        DescribeInstances [''i-abc''], Log_Printf ''Still pending...'', Sleep 3,
        DescribeInstances [''i-abc''], Sleep 7,
        Exec_Start ''xdg-open'' [''http://ec2-1-2-3-4.compute.amazonaws.com''],
        Log_Printf ''Start-up time: %v\<newline>''])"
  by (simp add: main_def createInstance_def getSecurityGroup_def setTagName_def waitRunning_def
      waitRunning_loop.simps openBrowser_def duration_def scenario_client_def status_def
      groupName_def)

section \<open>Properties of waitRunning\<close>

lemma scanInstances_append:
  "scanInstances (xs @ ys) t =
     (case scanInstances xs t of (Some r, t1) \<Rightarrow> (Some r, t1) | (None, t1) \<Rightarrow> scanInstances ys t1)"
  by (induction xs arbitrary: t) (simp_all split: option.splits)

lemma scanReservations_flat: "scanReservations rs t = scanInstances (allInstances rs) t"
  by (induction rs arbitrary: t) (simp_all add: allInstances_def scanInstances_append split: prod.splits option.splits)

lemma scanInstances_pending_Cons:
  "pendingInstance i \<Longrightarrow> scanInstances (i # rest) t = scanInstances rest (t @ [Log_Printf ''Still pending...''])"
  by (auto simp add: pendingInstance_def split: option.splits)

lemma scanInstances_takeWhile:
  "scanInstances xs t =
     (case dropWhile pendingInstance xs of
        [] \<Rightarrow> (None, t @ replicate (length (takeWhile pendingInstance xs)) (Log_Printf ''Still pending...''))
      | i # rest \<Rightarrow>
          scanInstances [i] (t @ replicate (length (takeWhile pendingInstance xs)) (Log_Printf ''Still pending...'')))"
proof (induction xs arbitrary: t)
  case Nil
  show ?case by simp
next
  case (Cons x xs)
  show ?case
  proof (cases "pendingInstance x")
    case True
    have "scanInstances (x # xs) t = scanInstances xs (t @ [Log_Printf ''Still pending...''])"
      using True by (rule scanInstances_pending_Cons)
    also have "\<dots> =
      (case dropWhile pendingInstance xs of
         [] \<Rightarrow> (None, (t @ [Log_Printf ''Still pending...'']) @
                 replicate (length (takeWhile pendingInstance xs)) (Log_Printf ''Still pending...''))
       | i # rest \<Rightarrow>
           scanInstances [i] ((t @ [Log_Printf ''Still pending...'']) @
              replicate (length (takeWhile pendingInstance xs)) (Log_Printf ''Still pending...'')))"
      by (rule Cons.IH)
    finally show ?thesis
      using True by (simp del: scanInstances.simps cong: list.case_cong)
  next
    case False
    then show ?thesis
      by (simp add: pendingInstance_def split: option.splits)
  qed
qed

lemma find_dropWhile:
  "find (\<lambda>i. \<not> P i) xs = (case dropWhile P xs of [] \<Rightarrow> None | i # rest \<Rightarrow> Some i)"
  by (induction xs) simp_all

lemma scanReservations_pending:
  assumes "pendingResponse (Inr rs)"
  shows "scanReservations rs t = (None, t @ stillPending rs)"
proof -
  have d: "dropWhile pendingInstance (allInstances rs) = []"
    using assms by (simp add: pendingResponse_def list_all_iff)
  show ?thesis
    unfolding scanReservations_flat scanInstances_takeWhile [of "allInstances rs"] d stillPending_def
    by simp
qed

lemma scanReservations_firstNonPending:
  assumes "firstNonPending rs = Some i"
  shows "scanReservations rs t = scanInstances [i] (t @ stillPending rs)"
proof -
  obtain rest where d: "dropWhile pendingInstance (allInstances rs) = i # rest"
    using assms by (auto simp add: firstNonPending_def find_dropWhile split: list.splits)
  show ?thesis
    unfolding scanReservations_flat scanInstances_takeWhile [of "allInstances rs"] d stillPending_def
    by simp
qed

lemma stillPending_no_query [simp]: "filter is_query (stillPending rs) = []"
  by (simp add: stillPending_def)

lemma stillPending_no_sleep [simp]: "filter is_sleep (stillPending rs) = []"
  by (simp add: stillPending_def)

lemma waitRunning_loop_error:
  assumes "on_DescribeInstances c n = Inl err"
  shows "waitRunning_loop c ids n t =
           Some (Inr '''',
                 t @ [DescribeInstances ids,
                      Println ''Got an error retrieving information about your Amazon EC2 instances:'',
                      Println (Error err)])"
  using assms by (subst waitRunning_loop.simps) simp

lemma waitRunning_loop_pending:
  assumes "on_DescribeInstances c n = Inr rs" and "pendingResponse (Inr rs)"
  shows "waitRunning_loop c ids n t =
           waitRunning_loop c ids (Suc n) (t @ DescribeInstances ids # stillPending rs @ [Sleep 3])"
  using assms by (subst waitRunning_loop.simps) (simp add: scanReservations_pending)

lemma waitRunning_loop_running:
  assumes "on_DescribeInstances c n = Inr rs" and "firstNonPending rs = Some i"
    and "State i = Some st" and "Code st = Some 16" and "PublicDnsName i = Some dns"
  shows "waitRunning_loop c ids n t =
           Some (Inr (''http://'' @ dns), t @ DescribeInstances ids # stillPending rs @ [Sleep 7])"
  using assms by (subst waitRunning_loop.simps) (simp add: scanReservations_firstNonPending)

lemma waitRunning_loop_failed:
  assumes "on_DescribeInstances c n = Inr rs" and "firstNonPending rs = Some i"
    and "State i = Some st" and "Code st = Some code" and "code \<noteq> 16" and "code \<noteq> 0"
  shows "waitRunning_loop c ids n t =
           Some (Inr '''',
                 t @ DescribeInstances ids # stillPending rs @ [Println ''Got an error creating an instance''])"
  using assms by (subst waitRunning_loop.simps) (simp add: scanReservations_firstNonPending)

lemma waitRunning_loop_pending_many:
  assumes "\<forall>j<k. pendingResponse (on_DescribeInstances c (n + j))"
  shows "\<exists>t'. waitRunning_loop c ids n t = waitRunning_loop c ids (n + k) t' \<and>
              filter is_query t' = filter is_query t @ replicate k (DescribeInstances ids) \<and>
              filter is_sleep t' = filter is_sleep t @ replicate k (Sleep 3)"
  using assms
proof (induction k arbitrary: n t)
  case 0
  show ?case by (intro exI [of _ t]) simp
next
  case (Suc k)
  from Suc.prems have "pendingResponse (on_DescribeInstances c (n + 0))" by blast
  then obtain rs where rs: "on_DescribeInstances c n = Inr rs" "pendingResponse (Inr rs)"
    by (cases "on_DescribeInstances c n") (simp_all add: pendingResponse_def)
  let ?t1 = "t @ DescribeInstances ids # stillPending rs @ [Sleep 3]"
  have step: "waitRunning_loop c ids n t = waitRunning_loop c ids (Suc n) ?t1"
    using rs by (rule waitRunning_loop_pending)
  have "\<forall>j<k. pendingResponse (on_DescribeInstances c (Suc n + j))"
    using Suc.prems by (metis Suc_less_eq add_Suc_shift)
  from Suc.IH [OF this, of ?t1] obtain t' where
    t': "waitRunning_loop c ids (Suc n) ?t1 = waitRunning_loop c ids (Suc n + k) t'"
        "filter is_query t' = filter is_query ?t1 @ replicate k (DescribeInstances ids)"
        "filter is_sleep t' = filter is_sleep ?t1 @ replicate k (Sleep 3)"
    by blast
  show ?case
    using step t' by (intro exI [of _ t']) (simp add: replicate_append_same)
qed

lemma example_script_simps:
  "on_DescribeInstances (poll_client script) n = script n"
  "pending_pending_running 0 = Inr [\<lparr>Instances = [status 0 '''']\<rparr>]"
  "pending_pending_running 1 = Inr [\<lparr>Instances = [status 0 '''']\<rparr>]"
  "pending_pending_running 2 = Inr [\<lparr>Instances = [status 16 ''ec2-1-2-3-4.compute.amazonaws.com'']\<rparr>]"
  "pending_terminated 0 = Inr [\<lparr>Instances = [status 0 '''']\<rparr>]"
  "pending_terminated 1 = Inr [\<lparr>Instances = [status 48 '''']\<rparr>]"
  "pending_query_error 0 = Inr [\<lparr>Instances = [status 0 '''']\<rparr>]"
  "pending_query_error 1 = Inl (OtherError ''request send failed'')"
  "pending_pending_running (Suc 0) = Inr [\<lparr>Instances = [status 0 '''']\<rparr>]"
  "pending_pending_running (Suc (Suc 0)) =
     Inr [\<lparr>Instances = [status 16 ''ec2-1-2-3-4.compute.amazonaws.com'']\<rparr>]"
  "pending_terminated (Suc 0) = Inr [\<lparr>Instances = [status 48 '''']\<rparr>]"
  "pending_query_error (Suc 0) = Inl (OtherError ''request send failed'')"
  by (simp_all add: poll_client_def pending_pending_running_def pending_terminated_def
      pending_query_error_def)

lemma status_simps:
  "State (status code dns) = Some \<lparr>Code = Some code\<rparr>"
  "PublicDnsName (status code dns) = Some dns"
  "pendingInstance (status code dns) \<longleftrightarrow> code = 0"
  by (simp_all add: status_def pendingInstance_def)

lemma example_answer_simps:
  "pendingResponse (Inr [\<lparr>Instances = [status 0 dns]\<rparr>])"
  "code \<noteq> 0 \<Longrightarrow> firstNonPending [\<lparr>Instances = [status code dns]\<rparr>] = Some (status code dns)"
  by (simp_all add: pendingResponse_def firstNonPending_def allInstances_def status_simps)

text \<open>
  C2. When the first two answers are pending and the third is a success whose first
  instance that is not pending has code 16 and a public name, \<open>waitRunning\<close> returns
  \<open>http://\<close> followed by that name after three queries, having slept three times: 3
  seconds after each pending answer and 7 seconds before returning.
\<close>

theorem waitRunning_pending_pending_running:
  assumes "pendingResponse (on_DescribeInstances c 0)"
    and "pendingResponse (on_DescribeInstances c 1)"
    and "on_DescribeInstances c 2 = Inr rs"
    and "firstNonPending rs = Some i"
    and "State i = Some st" and "Code st = Some 16" and "PublicDnsName i = Some dns"
  shows "\<exists>tr. waitRunning c instanceId t = Some (Inr (''http://'' @ dns), tr) \<and>
              filter is_sleep tr = filter is_sleep t @ [Sleep 3, Sleep 3, Sleep 7] \<and>
              filter is_query tr = filter is_query t @ replicate 3 (DescribeInstances [instanceId])"
proof -
  have "\<forall>j<2. pendingResponse (on_DescribeInstances c (0 + j))"
    using assms(1,2) by (simp add: less_Suc_eq numeral_2_eq_2)
  from waitRunning_loop_pending_many [OF this, of "[instanceId]" t] obtain t' where
    t': "waitRunning_loop c [instanceId] 0 t = waitRunning_loop c [instanceId] (0 + 2) t'"
        "filter is_query t' = filter is_query t @ replicate 2 (DescribeInstances [instanceId])"
        "filter is_sleep t' = filter is_sleep t @ replicate 2 (Sleep 3)"
    by blast
  have "waitRunning_loop c [instanceId] 2 t' =
          Some (Inr (''http://'' @ dns), t' @ DescribeInstances [instanceId] # stillPending rs @ [Sleep 7])"
    using assms(3-7) by (rule waitRunning_loop_running)
  with t' show ?thesis
    by (simp add: waitRunning_def numeral_2_eq_2 numeral_3_eq_3)
qed

theorem waitRunning_pending_pending_running_witness:
  "\<exists>tr. waitRunning (poll_client pending_pending_running) ''i-abc'' [] =
            Some (Inr ''http://ec2-1-2-3-4.compute.amazonaws.com'', tr) \<and>
         filter is_sleep tr = [Sleep 3, Sleep 3, Sleep 7] \<and>
         filter is_query tr = replicate 3 (DescribeInstances [''i-abc''])"
proof -
  let ?c = "poll_client pending_pending_running"
  let ?i = "status 16 ''ec2-1-2-3-4.compute.amazonaws.com''"
  have h0: "pendingResponse (on_DescribeInstances ?c 0)"
    by (simp add: example_script_simps example_answer_simps)
  have h1: "pendingResponse (on_DescribeInstances ?c 1)"
    by (simp add: example_script_simps example_answer_simps)
  have h2: "on_DescribeInstances ?c 2 = Inr [\<lparr>Instances = [?i]\<rparr>]"
    by (simp add: example_script_simps)
  have h3: "firstNonPending [\<lparr>Instances = [?i]\<rparr>] = Some ?i"
    by (simp add: example_answer_simps)
  have h4: "State ?i = Some \<lparr>Code = Some 16\<rparr>"
    by (simp add: status_simps)
  have h5: "Code \<lparr>Code = Some (16 :: 32 word)\<rparr> = Some 16"
    by simp
  have h6: "PublicDnsName ?i = Some ''ec2-1-2-3-4.compute.amazonaws.com''"
    by (simp add: status_simps)
  show ?thesis
    using waitRunning_pending_pending_running [OF h0 h1 h2 h3 h4 h5 h6, of "''i-abc''" "[]"]
    by simp
qed

text \<open>
  C6. When the first \<open>k\<close> answers are pending and answer \<open>k\<close> is a success whose first
  instance that is not pending has a code other than 0 and 16, \<open>waitRunning\<close> returns the
  empty string. It has then made exactly \<open>k + 1\<close> queries and slept exactly \<open>k\<close> times,
  once after each pending answer, and the last thing it did was to print the failure: no
  query and no sleep follows the failed answer.
\<close>

theorem waitRunning_failed_status:
  assumes "\<forall>j<k. pendingResponse (on_DescribeInstances c j)"
    and "on_DescribeInstances c k = Inr rs"
    and "firstNonPending rs = Some i"
    and "State i = Some st" and "Code st = Some code" and "code \<noteq> 0" and "code \<noteq> 16"
  shows "\<exists>tr. waitRunning c instanceId t = Some (Inr '''', tr) \<and>
              filter is_query tr = filter is_query t @ replicate (Suc k) (DescribeInstances [instanceId]) \<and>
              filter is_sleep tr = filter is_sleep t @ replicate k (Sleep 3) \<and>
              last tr = Println ''Got an error creating an instance''"
proof -
  have "\<forall>j<k. pendingResponse (on_DescribeInstances c (0 + j))"
    using assms(1) by simp
  from waitRunning_loop_pending_many [OF this, of "[instanceId]" t] obtain t' where
    t': "waitRunning_loop c [instanceId] 0 t = waitRunning_loop c [instanceId] (0 + k) t'"
        "filter is_query t' = filter is_query t @ replicate k (DescribeInstances [instanceId])"
        "filter is_sleep t' = filter is_sleep t @ replicate k (Sleep 3)"
    by blast
  have "waitRunning_loop c [instanceId] k t' =
          Some (Inr '''',
                t' @ DescribeInstances [instanceId] # stillPending rs @
                  [Println ''Got an error creating an instance''])"
    using assms(2-5) assms(7) assms(6) by (rule waitRunning_loop_failed)
  with t' show ?thesis
    by (simp add: waitRunning_def replicate_append_same)
qed

theorem waitRunning_failed_status_witness:
  "\<exists>tr. waitRunning (poll_client pending_terminated) ''i-abc'' [] = Some (Inr '''', tr) \<and>
         filter is_query tr = replicate 2 (DescribeInstances [''i-abc'']) \<and>
         filter is_sleep tr = [Sleep 3] \<and>
         last tr = Println ''Got an error creating an instance''"
proof -
  let ?c = "poll_client pending_terminated"
  let ?i = "status 48 ''''"
  have h0: "\<forall>j<1. pendingResponse (on_DescribeInstances ?c j)"
    by (simp add: example_script_simps example_answer_simps)
  have h1: "on_DescribeInstances ?c 1 = Inr [\<lparr>Instances = [?i]\<rparr>]"
    by (simp add: example_script_simps)
  have h2: "firstNonPending [\<lparr>Instances = [?i]\<rparr>] = Some ?i"
    by (simp add: example_answer_simps)
  have h3: "State ?i = Some \<lparr>Code = Some 48\<rparr>"
    by (simp add: status_simps)
  have h4: "Code \<lparr>Code = Some (48 :: 32 word)\<rparr> = Some 48"
    by simp
  have h5: "(48 :: 32 word) \<noteq> 0"
    by simp
  have h6: "(48 :: 32 word) \<noteq> 16"
    by simp
  show ?thesis
    using waitRunning_failed_status [OF h0 h1 h2 h3 h4 h5 h6, of "''i-abc''" "[]"]
    by (simp add: numeral_2_eq_2)
qed

text \<open>
  C7. When the first \<open>k\<close> answers are pending and query \<open>k\<close> fails, \<open>waitRunning\<close> returns
  the empty string. It has then made exactly \<open>k + 1\<close> queries, so the failed query is not
  repeated, and slept exactly \<open>k\<close> times; the last thing it did was to print the error.
\<close>

theorem waitRunning_query_error:
  assumes "\<forall>j<k. pendingResponse (on_DescribeInstances c j)"
    and "on_DescribeInstances c k = Inl err"
  shows "\<exists>tr. waitRunning c instanceId t = Some (Inr '''', tr) \<and>
              filter is_query tr = filter is_query t @ replicate (Suc k) (DescribeInstances [instanceId]) \<and>
              filter is_sleep tr = filter is_sleep t @ replicate k (Sleep 3) \<and>
              last tr = Println (Error err)"
proof -
  have "\<forall>j<k. pendingResponse (on_DescribeInstances c (0 + j))"
    using assms(1) by simp
  from waitRunning_loop_pending_many [OF this, of "[instanceId]" t] obtain t' where
    t': "waitRunning_loop c [instanceId] 0 t = waitRunning_loop c [instanceId] (0 + k) t'"
        "filter is_query t' = filter is_query t @ replicate k (DescribeInstances [instanceId])"
        "filter is_sleep t' = filter is_sleep t @ replicate k (Sleep 3)"
    by blast
  have "waitRunning_loop c [instanceId] k t' =
          Some (Inr '''',
                t' @ [DescribeInstances [instanceId],
                      Println ''Got an error retrieving information about your Amazon EC2 instances:'',
                      Println (Error err)])"
    using assms(2) by (rule waitRunning_loop_error)
  with t' show ?thesis
    by (simp add: waitRunning_def replicate_append_same)
qed

theorem waitRunning_query_error_witness:
  "\<exists>tr. waitRunning (poll_client pending_query_error) ''i-abc'' [] = Some (Inr '''', tr) \<and>
         filter is_query tr = replicate 2 (DescribeInstances [''i-abc'']) \<and>
         filter is_sleep tr = [Sleep 3] \<and>
         last tr = Println ''request send failed''"
proof -
  let ?c = "poll_client pending_query_error"
  have h0: "\<forall>j<1. pendingResponse (on_DescribeInstances ?c j)"
    by (simp add: example_script_simps example_answer_simps)
  have h1: "on_DescribeInstances ?c 1 = Inl (OtherError ''request send failed'')"
    by (simp add: example_script_simps)
  show ?thesis
    using waitRunning_query_error [OF h0 h1, of "''i-abc''" "[]"]
    by (simp add: numeral_2_eq_2)
qed

lemma scanInstances_no_query:
  "filter is_query (snd (scanInstances xs t)) = filter is_query t"
  by (induction xs arbitrary: t) (simp_all split: option.splits)

lemma scanInstances_returns_address:
  "scanInstances xs t = (Some (Inr s), t') \<Longrightarrow>
   s = '''' \<or>
   (\<exists>i\<in>set xs. \<exists>st dns. State i = Some st \<and> Code st = Some 16 \<and>
       PublicDnsName i = Some dns \<and> s = ''http://'' @ dns)"
  by (induction xs arbitrary: t) (auto split: option.splits if_splits)



lemma waitRunning_loop_address:
  assumes "waitRunning_loop c ids n t = Some y"
  shows "\<forall>s tr. y = (Inr s, tr) \<longrightarrow>
           s = '''' \<or>
           (\<exists>m rs i st dns. n \<le> m \<and> on_DescribeInstances c m = Inr rs \<and>
               i \<in> set (allInstances rs) \<and> State i = Some st \<and> Code st = Some 16 \<and>
               PublicDnsName i = Some dns \<and> s = ''http://'' @ dns \<and>
               length (filter is_query tr) = length (filter is_query t) + (m - n) + 1)"
proof -
  let ?found = "\<lambda>(c::client) (n::nat) (t::trace) (s::string) (tr::trace) m.
           (\<exists>rs i st dns. n \<le> m \<and> on_DescribeInstances c m = Inr rs \<and>
               i \<in> set (allInstances rs) \<and> State i = Some st \<and> Code st = Some 16 \<and>
               PublicDnsName i = Some dns \<and> s = ''http://'' @ dns \<and>
               length (filter is_query tr) = length (filter is_query t) + (m - n) + 1)"
  let ?P = "\<lambda>(c::client) (ids::string list) (n::nat) (t::trace) (y::(panic + string) \<times> trace).
           \<forall>s tr. y = (Inr s, tr) \<longrightarrow> s = '''' \<or> (\<exists>m. ?found c n t s tr m)"
  have "?P c ids n t y"
  proof (rule waitRunning_loop.raw_induct [where P = ?P, OF _ assms])
    fix loop :: "client \<Rightarrow> string list \<Rightarrow> nat \<Rightarrow> trace \<Rightarrow> ((panic + string) \<times> trace) option"
    fix c ids n t y
    assume IH: "\<And>c ids n t y. loop c ids n t = Some y \<Longrightarrow> ?P c ids n t y"
    assume body:
      "(let t1 = t @ [DescribeInstances ids]
        in case on_DescribeInstances c n of
             Inl err \<Rightarrow>
               Some (Inr [],
                     t1 @ [Println ''Got an error retrieving information about your Amazon EC2 instances:'',
                           Println (Error err)])
           | Inr result \<Rightarrow>
               (case scanReservations result t1 of
                  (None, t2) \<Rightarrow> loop c ids (Suc n) (t2 @ [Sleep 3])
                | (Some res, t2) \<Rightarrow> Some (res, t2))) = Some y"
    show "?P c ids n t y"
    proof (cases "on_DescribeInstances c n")
      case (Inl err)
      with body show ?thesis by auto
    next
      case (Inr rs)
      obtain r t2 where scan: "scanReservations rs (t @ [DescribeInstances ids]) = (r, t2)"
        by (cases "scanReservations rs (t @ [DescribeInstances ids])")
      have q: "filter is_query t2 = filter is_query t @ [DescribeInstances ids]"
        using scanInstances_no_query [of "allInstances rs" "t @ [DescribeInstances ids]"] scan
        by (simp add: scanReservations_flat)
      show ?thesis
      proof (cases r)
        case None
        with body Inr scan have rec: "loop c ids (Suc n) (t2 @ [Sleep 3]) = Some y" by simp
        show ?thesis
        proof (intro allI impI)
          fix s tr assume y: "y = (Inr s, tr)"
          from IH [OF rec] y have "s = '''' \<or> (\<exists>m. ?found c (Suc n) (t2 @ [Sleep 3]) s tr m)"
            by blast
          then show "s = '''' \<or> (\<exists>m. ?found c n t s tr m)"
          proof
            assume "s = []" then show ?thesis ..
          next
            assume "\<exists>m. ?found c (Suc n) (t2 @ [Sleep 3]) s tr m"
            then obtain m rs' i st dns where m: "Suc n \<le> m" "on_DescribeInstances c m = Inr rs'"
                 "i \<in> set (allInstances rs')" "State i = Some st" "Code st = Some 16"
                 "PublicDnsName i = Some dns" "s = ''http://'' @ dns"
                 "length (filter is_query tr) = length (filter is_query (t2 @ [Sleep 3])) + (m - Suc n) + 1"
              by blast
            have "n \<le> m" using m(1) by simp
            moreover have "length (filter is_query tr) = length (filter is_query t) + (m - n) + 1"
              using m(1) m(8) q by simp
            ultimately have "?found c n t s tr m" using m(2-7) by blast
            then show ?thesis by blast
          qed
        qed
      next
        case (Some res)
        with body Inr scan have y: "y = (res, t2)" by simp
        show ?thesis
        proof (intro allI impI)
          fix s tr assume "y = (Inr s, tr)"
          with y have res: "res = Inr s" "tr = t2" by simp_all
          from scan Some res
          have "scanInstances (allInstances rs) (t @ [DescribeInstances ids]) = (Some (Inr s), t2)"
            by (simp add: scanReservations_flat)
          from scanInstances_returns_address [OF this]
          show "s = '''' \<or> (\<exists>m. ?found c n t s tr m)"
          proof
            assume "s = []" then show ?thesis ..
          next
            assume "\<exists>i\<in>set (allInstances rs). \<exists>st dns. State i = Some st \<and> Code st = Some 16 \<and>
                PublicDnsName i = Some dns \<and> s = ''http://'' @ dns"
            then obtain i st dns where "i \<in> set (allInstances rs)" "State i = Some st"
               "Code st = Some 16" "PublicDnsName i = Some dns" "s = ''http://'' @ dns"
              by blast
            moreover have "length (filter is_query tr) = length (filter is_query t) + (n - n) + 1"
              using q res(2) by simp
            ultimately have "?found c n t s tr n" using Inr by blast
            then show ?thesis by blast
          qed
        qed
      qed
    qed
  qed
  then show ?thesis by blast
qed

text \<open>
  C9. Whenever \<open>waitRunning\<close> returns a string, the string is empty, or it is \<open>http://\<close>
  followed by the public name of an instance with code 16 found in the answer to the last
  query that was made. So a string that is not empty is returned only after a query saw
  the running code.
\<close>

theorem waitRunning_address_only_when_running:
  assumes "waitRunning c instanceId t = Some (Inr s, tr)"
  shows "s = '''' \<or>
         (\<exists>m rs i st dns. on_DescribeInstances c m = Inr rs \<and> i \<in> set (allInstances rs) \<and>
             State i = Some st \<and> Code st = Some 16 \<and> PublicDnsName i = Some dns \<and>
             s = ''http://'' @ dns \<and>
             length (filter is_query tr) = length (filter is_query t) + m + 1)"
proof -
  from assms have "waitRunning_loop c [instanceId] 0 t = Some (Inr s, tr)"
    by (simp add: waitRunning_def)
  from waitRunning_loop_address [OF this] show ?thesis
    by auto
qed

lemma waitRunning_example_run:
  "waitRunning (poll_client pending_pending_running) ''i-abc'' [] =
     Some (Inr ''http://ec2-1-2-3-4.compute.amazonaws.com'',
           [DescribeInstances [''i-abc''], Log_Printf ''Still pending...'', Sleep 3,
            DescribeInstances [''i-abc''], Log_Printf ''Still pending...'', Sleep 3,
            DescribeInstances [''i-abc''], Sleep 7])"
proof -
  let ?c = "poll_client pending_pending_running"
  let ?p = "[\<lparr>Instances = [status 0 '''']\<rparr>]"
  let ?i = "status 16 ''ec2-1-2-3-4.compute.amazonaws.com''"
  have sp: "stillPending ?p = [Log_Printf ''Still pending...'']"
    by (simp add: stillPending_def allInstances_def status_simps)
  have sr: "stillPending [\<lparr>Instances = [?i]\<rparr>] = []"
    by (simp add: stillPending_def allInstances_def status_simps)
  have "waitRunning ?c ''i-abc'' [] =
          waitRunning_loop ?c [''i-abc''] (Suc 0)
            ([] @ DescribeInstances [''i-abc''] # stillPending ?p @ [Sleep 3])"
    unfolding waitRunning_def
    by (rule waitRunning_loop_pending) (simp_all add: example_script_simps example_answer_simps)
  also have "\<dots> =
          waitRunning_loop ?c [''i-abc''] (Suc (Suc 0))
            (([] @ DescribeInstances [''i-abc''] # stillPending ?p @ [Sleep 3]) @
              DescribeInstances [''i-abc''] # stillPending ?p @ [Sleep 3])"
    by (rule waitRunning_loop_pending) (simp_all add: example_script_simps example_answer_simps)
  also have "\<dots> =
          Some (Inr (''http://'' @ ''ec2-1-2-3-4.compute.amazonaws.com''),
            (([] @ DescribeInstances [''i-abc''] # stillPending ?p @ [Sleep 3]) @
              DescribeInstances [''i-abc''] # stillPending ?p @ [Sleep 3]) @
              DescribeInstances [''i-abc''] # stillPending [\<lparr>Instances = [?i]\<rparr>] @ [Sleep 7])"
    by (rule waitRunning_loop_running [where i = ?i and st = "\<lparr>Code = Some 16\<rparr>"])
       (simp_all add: example_script_simps example_answer_simps status_simps numeral_2_eq_2 [symmetric])
  finally show ?thesis
    by (simp add: sp sr)
qed

theorem waitRunning_address_only_when_running_witness:
  "waitRunning (poll_client pending_pending_running) ''i-abc'' [] =
     Some (Inr ''http://ec2-1-2-3-4.compute.amazonaws.com'',
           [DescribeInstances [''i-abc''], Log_Printf ''Still pending...'', Sleep 3,
            DescribeInstances [''i-abc''], Log_Printf ''Still pending...'', Sleep 3,
            DescribeInstances [''i-abc''], Sleep 7]) \<and>
   (\<exists>m rs i st dns.
       on_DescribeInstances (poll_client pending_pending_running) m = Inr rs \<and>
       i \<in> set (allInstances rs) \<and> State i = Some st \<and> Code st = Some 16 \<and>
       PublicDnsName i = Some dns \<and>
       ''http://ec2-1-2-3-4.compute.amazonaws.com'' = ''http://'' @ dns \<and> m = 2)"
proof -
  note run = waitRunning_example_run
  from waitRunning_address_only_when_running [OF run]
  have "\<exists>m rs i st dns.
       on_DescribeInstances (poll_client pending_pending_running) m = Inr rs \<and>
       i \<in> set (allInstances rs) \<and> State i = Some st \<and> Code st = Some 16 \<and>
       PublicDnsName i = Some dns \<and>
       ''http://ec2-1-2-3-4.compute.amazonaws.com'' = ''http://'' @ dns \<and> m = 2"
    by (auto simp add: numeral_2_eq_2)
  with run show ?thesis by (rule conjI)
qed







end
